theory Spec2Isabelle
  imports Main "HOL-Library.Word"
begin

section \<open>Text and bytes\<close>

text \<open>
  A Python \<open>str\<close> is a sequence of Unicode code points, a \<open>bytes\<close> object a sequence of
  octets. String constants of the source are ASCII and are written through \<open>ascii\<close>.
\<close>

type_synonym codepoint = nat
type_synonym str = "codepoint list"
type_synonym byte = "8 word"
type_synonym bytes = "byte list"

definition ascii :: "string \<Rightarrow> str" where
  "ascii s = map of_char s"

datatype oserror = OSError_msg str | OSError_errno int str

datatype error =
    UnknownCommand str
  | CommandReadTimedOut str
  | ResponseError str str
  | BufferTooLongError str
  | ConnectionError str "int option"
  | UnicodeEncodeError
  | UnicodeDecodeError
  | StructError
  | IndexError
  | ValueError
  | TypeError
  | OverflowError
  | UncaughtOSError oserror

subsection \<open>Methods of \<open>str\<close>\<close>

text \<open>\<open>sep.join(xs)\<close>\<close>

fun join :: "'a list \<Rightarrow> 'a list list \<Rightarrow> 'a list" where
  "join sep [] = []"
| "join sep [x] = x"
| "join sep (x # y # ys) = x @ sep @ join sep (y # ys)"

text \<open>\<open>s.strip(chars)\<close>: removes from both ends every character that occurs in \<open>chars\<close>.\<close>

definition strip_chars :: "'a list \<Rightarrow> 'a list \<Rightarrow> 'a list" where
  "strip_chars cs s =
     rev (dropWhile (\<lambda>c. c \<in> set cs) (rev (dropWhile (\<lambda>c. c \<in> set cs) s)))"

text \<open>
  \<open>c.isspace()\<close>: the code points with the Unicode white-space property, which is what
  \<open>s.strip()\<close> without an argument removes.
\<close>

definition isspace :: "codepoint \<Rightarrow> bool" where
  "isspace c \<longleftrightarrow>
     (9 \<le> c \<and> c \<le> 13) \<or> (28 \<le> c \<and> c \<le> 32) \<or> c = 133 \<or> c = 160 \<or> c = 5760
     \<or> (8192 \<le> c \<and> c \<le> 8202) \<or> c = 8232 \<or> c = 8233 \<or> c = 8239 \<or> c = 8287
     \<or> c = 12288"

definition strip :: "str \<Rightarrow> str" where
  "strip s = rev (dropWhile isspace (rev (dropWhile isspace s)))"

text \<open>\<open>s.split(sep)\<close> for a separator of one character: never the empty list.\<close>

fun split :: "'a \<Rightarrow> 'a list \<Rightarrow> 'a list list" where
  "split sep [] = [[]]"
| "split sep (x # xs) =
     (if x = sep then [] # split sep xs
      else (case split sep xs of [] \<Rightarrow> [[x]] | f # fs \<Rightarrow> (x # f) # fs))"

text \<open>
  \<open>s.rsplit(sep, 1)\<close> for a non-empty separator: \<open>rsplit_last\<close> finds the rightmost
  occurrence of \<open>sep\<close> and returns the text before it and the text after it.
\<close>

fun rsplit_last :: "'a list \<Rightarrow> 'a list \<Rightarrow> ('a list \<times> 'a list) option" where
  "rsplit_last sep [] = None"
| "rsplit_last sep (x # xs) =
     (case rsplit_last sep xs of
        Some (a, b) \<Rightarrow> Some (x # a, b)
      | None \<Rightarrow>
          if take (length sep) (x # xs) = sep then Some ([], drop (length sep) (x # xs))
          else None)"

definition rsplit1 :: "'a list \<Rightarrow> 'a list \<Rightarrow> 'a list list" where
  "rsplit1 sep s = (case rsplit_last sep s of None \<Rightarrow> [s] | Some (a, b) \<Rightarrow> [a, b])"

text \<open>\<open>sub in s\<close> for a non-empty \<open>sub\<close>.\<close>

fun contains :: "'a list \<Rightarrow> 'a list \<Rightarrow> bool" where
  "contains sub [] = False"
| "contains sub (x # xs) = (take (length sub) (x # xs) = sub \<or> contains sub xs)"

subsection \<open>UTF-8\<close>

text \<open>
  \<open>s.encode("utf-8")\<close>: one to four octets per code point; a surrogate (U+D800 to U+DFFF)
  raises \<open>UnicodeEncodeError\<close>. Code points from U+110000 on do not occur in a \<open>str\<close>.
\<close>

definition utf8_char :: "codepoint \<Rightarrow> error + bytes" where
  "utf8_char c =
     (if c < 0x80 then Inr [of_nat c]
      else if c < 0x800 then Inr [of_nat (0xC0 + c div 64), of_nat (0x80 + c mod 64)]
      else if 0xD800 \<le> c \<and> c < 0xE000 then Inl UnicodeEncodeError
      else if c < 0x10000 then
        Inr [of_nat (0xE0 + c div 4096), of_nat (0x80 + c div 64 mod 64),
             of_nat (0x80 + c mod 64)]
      else if c < 0x110000 then
        Inr [of_nat (0xF0 + c div 262144), of_nat (0x80 + c div 4096 mod 64),
             of_nat (0x80 + c div 64 mod 64), of_nat (0x80 + c mod 64)]
      else Inl UnicodeEncodeError)"

fun encode :: "str \<Rightarrow> error + bytes" where
  "encode [] = Inr []"
| "encode (c # cs) =
     (case utf8_char c of
        Inl e \<Rightarrow> Inl e
      | Inr bs \<Rightarrow> (case encode cs of Inl e \<Rightarrow> Inl e | Inr rest \<Rightarrow> Inr (bs @ rest)))"

text \<open>
  \<open>b.decode("utf-8")\<close>: strict decoding; an octet sequence that is not well-formed UTF-8
  (a stray continuation octet, an overlong form, an encoded surrogate, a value above U+10FFFF,
  a truncated sequence) raises \<open>UnicodeDecodeError\<close>.
\<close>

definition is_cont :: "byte \<Rightarrow> bool" where
  "is_cont b \<longleftrightarrow> 0x80 \<le> b \<and> b \<le> 0xBF"

definition cont_bits :: "byte \<Rightarrow> nat" where
  "cont_bits b = unat b - 0x80"

fun decode :: "bytes \<Rightarrow> error + str" where
  "decode [] = Inr []"
| "decode (b # bs) =
     (if b < 0x80 then
        (case decode bs of Inl e \<Rightarrow> Inl e | Inr s \<Rightarrow> Inr (unat b # s))
      else if 0xC2 \<le> b \<and> b \<le> 0xDF then
        (case bs of
           b1 # rest \<Rightarrow>
             if is_cont b1 then
               (case decode rest of
                  Inl e \<Rightarrow> Inl e
                | Inr s \<Rightarrow> Inr (((unat b - 0xC0) * 64 + cont_bits b1) # s))
             else Inl UnicodeDecodeError
         | _ \<Rightarrow> Inl UnicodeDecodeError)
      else if 0xE0 \<le> b \<and> b \<le> 0xEF then
        (case bs of
           b1 # b2 # rest \<Rightarrow>
             if (if b = 0xE0 then 0xA0 else 0x80) \<le> b1
                \<and> b1 \<le> (if b = 0xED then 0x9F else 0xBF) \<and> is_cont b2 then
               (case decode rest of
                  Inl e \<Rightarrow> Inl e
                | Inr s \<Rightarrow>
                    Inr (((unat b - 0xE0) * 4096 + cont_bits b1 * 64 + cont_bits b2) # s))
             else Inl UnicodeDecodeError
         | _ \<Rightarrow> Inl UnicodeDecodeError)
      else if 0xF0 \<le> b \<and> b \<le> 0xF4 then
        (case bs of
           b1 # b2 # b3 # rest \<Rightarrow>
             if (if b = 0xF0 then 0x90 else 0x80) \<le> b1
                \<and> b1 \<le> (if b = 0xF4 then 0x8F else 0xBF) \<and> is_cont b2 \<and> is_cont b3 then
               (case decode rest of
                  Inl e \<Rightarrow> Inl e
                | Inr s \<Rightarrow>
                    Inr (((unat b - 0xF0) * 262144 + cont_bits b1 * 4096 + cont_bits b2 * 64
                          + cont_bits b3) # s))
             else Inl UnicodeDecodeError
         | _ \<Rightarrow> Inl UnicodeDecodeError)
      else Inl UnicodeDecodeError)"

text \<open>\<open>f.readline()\<close> on a binary file: the octets up to and including the first newline.\<close>

fun readline :: "bytes \<Rightarrow> bytes" where
  "readline [] = []"
| "readline (b # bs) = (if b = 10 then [b] else b # readline bs)"

text \<open>\<open>str(i)\<close> for an integer, as an f-string formats it.\<close>

fun str_nat :: "nat \<Rightarrow> str" where
  "str_nat n = (if n < 10 then [48 + n] else str_nat (n div 10) @ [48 + n mod 10])"

declare str_nat.simps [simp del]

definition str_int :: "int \<Rightarrow> str" where
  "str_int i = (if i < 0 then 45 # str_nat (nat (- i)) else str_nat (nat i))"

section \<open>The session and its socket\<close>

text \<open>
  \<open>ClamdNetworkSocket.__init__\<close> stores its arguments. The line terminator is typed
  \<open>Literal["n", "z"]\<close>. The timeout is only handed to the socket and is left out.
\<close>

datatype line_terminator = LT_n | LT_z

record clamd =
  host :: str
  port :: int
  max_chunk_size :: int
  line_terminator :: line_terminator

text \<open>The value of the attribute \<open>self.line_terminator\<close>: the text \<open>n\<close> or \<open>z\<close>.\<close>

definition line_terminator_str :: "clamd \<Rightarrow> str" where
  "line_terminator_str self = (case line_terminator self of LT_n \<Rightarrow> ascii ''n'' | LT_z \<Rightarrow> ascii ''z'')"

text \<open>The property \<open>_endline\<close>: newline (10) for \<open>n\<close>, NUL (0) otherwise.\<close>

definition endline :: "clamd \<Rightarrow> codepoint" where
  "endline self = (if line_terminator self = LT_n then 10 else 0)"

text \<open>
  A connected socket, seen from the client: the arguments of the \<open>sendall\<close> calls made so
  far (oldest first), the octets the peer delivers before it closes the connection, and the
  \<open>OSError\<close> that writing or reading raises, if any.
\<close>

record sock =
  sent :: "bytes list"
  incoming :: bytes
  send_fault :: "oserror option"
  recv_fault :: "oserror option"

definition sendall :: "sock \<Rightarrow> bytes \<Rightarrow> error + sock" where
  "sendall s data =
     (case send_fault s of
        Some e \<Rightarrow> Inl (UncaughtOSError e)
      | None \<Rightarrow> Inr (s\<lparr>sent := sent s @ [data]\<rparr>))"

text \<open>
  \<open>_acquire_socket\<close>: the outcome of creating and connecting the socket is given by the
  environment; an \<open>OSError\<close> becomes a \<open>ConnectionError\<close>, with the error number when the
  \<open>OSError\<close> has more than one argument.
\<close>

definition acquire_socket :: "clamd \<Rightarrow> oserror + sock \<Rightarrow> error + sock" where
  "acquire_socket self connect =
     (case connect of
        Inr s \<Rightarrow> Inr s
      | Inl (OSError_msg m) \<Rightarrow>
          Inl (ConnectionError
                 (ascii ''Error while connecting to '' @ host self @ ascii '':''
                    @ str_int (port self) @ ascii '': '' @ m) None)
      | Inl (OSError_errno n m) \<Rightarrow>
          Inl (ConnectionError
                 (ascii ''Error while connecting to '' @ host self @ ascii '':''
                    @ str_int (port self) @ ascii '': '' @ m) (Some n)))"

text \<open>
  \<open>_send\<close>: builds the text \<open>cmd\<close> and hands its UTF-8 encoding to \<open>sendall\<close>. A tuple of
  arguments is true when it is not empty.
\<close>

definition send :: "clamd \<Rightarrow> sock \<Rightarrow> str \<Rightarrow> str list \<Rightarrow> error + sock" where
  "send self s command args =
     (let cmd = line_terminator_str self @ command;
          cmd = (if args \<noteq> [] then cmd @ ascii '' '' @ join (ascii '' '') args else cmd);
          cmd = cmd @ [endline self]
      in case encode cmd of Inl e \<Rightarrow> Inl e | Inr data \<Rightarrow> sendall s data)"

text \<open>
  \<open>_recv\<close>: reads to the end of the stream, or one line, decodes and strips the terminator
  character from both ends; an \<open>OSError\<close> becomes a \<open>ConnectionError\<close>.
\<close>

definition recv :: "clamd \<Rightarrow> sock \<Rightarrow> bool \<Rightarrow> error + str" where
  "recv self s multiline =
     (case recv_fault s of
        Some (OSError_msg m) \<Rightarrow>
          Inl (ConnectionError (ascii ''Error while reading from socket: '' @ m) None)
      | Some (OSError_errno n m) \<Rightarrow>
          Inl (ConnectionError (ascii ''Error while reading from socket: '' @ m) (Some n))
      | None \<Rightarrow>
          (case decode (if multiline then incoming s else readline (incoming s)) of
             Inl e \<Rightarrow> Inl e
           | Inr text \<Rightarrow> Inr (strip_chars [endline self] text)))"

definition UNKNOWN_COMMAND :: str where
  "UNKNOWN_COMMAND = ascii ''UNKNOWN COMMAND''"

definition COMMAND_READ_TIMED_OUT :: str where
  "COMMAND_READ_TIMED_OUT = ascii ''COMMAND READ TIMED OUT''"

text \<open>
  \<open>_command\<close>: one exchange on a fresh socket. The sentinel replies come first, then, when
  \<open>raise_on_error\<close> is set, the split at the last \<open>ERROR\<close>.
\<close>

definition command ::
  "clamd \<Rightarrow> oserror + sock \<Rightarrow> str \<Rightarrow> str list \<Rightarrow> bool \<Rightarrow> bool \<Rightarrow> error + str" where
  "command self connect cmd args multiline raise_on_error =
     (case acquire_socket self connect of
        Inl e \<Rightarrow> Inl e
      | Inr s \<Rightarrow>
          (case send self s cmd args of
             Inl e \<Rightarrow> Inl e
           | Inr s' \<Rightarrow>
               (case recv self s' multiline of
                  Inl e \<Rightarrow> Inl e
                | Inr rcv \<Rightarrow>
                    if rcv = UNKNOWN_COMMAND then Inl (UnknownCommand cmd)
                    else if rcv = COMMAND_READ_TIMED_OUT then Inl (CommandReadTimedOut cmd)
                    else if raise_on_error then
                      (case rsplit1 (ascii ''ERROR'') rcv of
                         r0 # _ # _ \<Rightarrow> Inl (ResponseError cmd (strip r0))
                       | _ \<Rightarrow> Inr rcv)
                    else Inr rcv)))"

text \<open>The commands that are one call of \<open>_command\<close>, and \<open>shutdown\<close>, which reads no reply.\<close>

definition ping :: "clamd \<Rightarrow> oserror + sock \<Rightarrow> error + str" where
  "ping self connect = command self connect (ascii ''PING'') [] True True"

definition reload :: "clamd \<Rightarrow> oserror + sock \<Rightarrow> error + str" where
  "reload self connect = command self connect (ascii ''RELOAD'') [] True True"

definition stats :: "clamd \<Rightarrow> oserror + sock \<Rightarrow> error + str" where
  "stats self connect = command self connect (ascii ''STATS'') [] True True"

definition shutdown :: "clamd \<Rightarrow> oserror + sock \<Rightarrow> error + unit" where
  "shutdown self connect =
     (case acquire_socket self connect of
        Inl e \<Rightarrow> Inl e
      | Inr s \<Rightarrow>
          (case send self s (ascii ''SHUTDOWN'') [] of Inl e \<Rightarrow> Inl e | Inr _ \<Rightarrow> Inr ()))"

text \<open>
  The Command Frame as the specification words it: the terminator character, the verb, the
  arguments each after a space, the terminator character.
\<close>

definition spec_frame :: "codepoint \<Rightarrow> str \<Rightarrow> str list \<Rightarrow> str" where
  "spec_frame term verb args = [term] @ verb @ concat (map ((#) 32) args) @ [term]"

definition default_clamd :: clamd where
  "default_clamd =
     \<lparr>host = ascii ''127.0.0.1'', port = 3310, max_chunk_size = 1024, line_terminator = LT_n\<rparr>"

definition fresh_sock :: "bytes \<Rightarrow> sock" where
  "fresh_sock reply = \<lparr>sent = [], incoming = reply, send_fault = None, recv_fault = None\<rparr>"

text \<open>A socket on which the peer answers \<open>Reason ERROR\<close>.\<close>

definition reason_error_sock :: sock where
  "reason_error_sock = fresh_sock [82, 101, 97, 115, 111, 110, 32, 69, 82, 82, 79, 82]"

section \<open>Regular expressions\<close>

text \<open>
  The fragment of Python's \<open>re\<close> that the patterns of this program use, with the semantics
  of a backtracking matcher: \<open>matches\<close> lists, in the order in which the matcher tries them,
  the ways in which the expression matches a prefix of the text, each as the text that is left
  and the named groups that took part. \<open>Rep c k\<close> is the greedy repetition of a character
  class, at least \<open>k\<close> times (\<open>*\<close> is \<open>Rep c 0\<close>, \<open>+\<close> is \<open>Rep c 1\<close>); without
  \<open>re.MULTILINE\<close>, \<open>$\<close> matches at the end of the text and before a newline that ends the
  text, and \<open>.\<close> matches every character but the newline. The first argument of \<open>matches\<close> is
  the length of the whole text, which \<open>^\<close> needs.
\<close>

definition ascii_lower :: "codepoint \<Rightarrow> codepoint" where
  "ascii_lower c = (if 65 \<le> c \<and> c \<le> 90 then c + 32 else c)"

text \<open>
  The characters with a decimal digit value, which \<open>\d\<close> matches and \<open>int\<close> reads: in
  Unicode they come in runs of ten, from a zero to its nine. \<open>decimal_zeros\<close> are the zeros
  of Unicode 14.0, the version of Python 3.11.
\<close>

definition decimal_zeros :: "codepoint list" where
  "decimal_zeros =
     [48, 1632, 1776, 1984, 2406, 2534, 2662, 2790, 2918, 3046, 3174, 3302, 3430, 3558,
      3664, 3792, 3872, 4160, 4240, 6112, 6160, 6470, 6608, 6784, 6800, 6992, 7088, 7232,
      7248, 42528, 43216, 43264, 43472, 43504, 43600, 44016, 65296, 66720, 68912, 69734,
      69872, 69942, 70096, 70384, 70736, 70864, 71248, 71360, 71472, 71904, 72016, 72784,
      73040, 73120, 92768, 92864, 93008, 120782, 120792, 120802, 120812, 120822, 123200,
      123632, 125264, 130032]"

definition decimal_value :: "codepoint \<Rightarrow> nat option" where
  "decimal_value c = map_option (\<lambda>z. c - z) (find (\<lambda>z. z \<le> c \<and> c \<le> z + 9) decimal_zeros)"

text \<open>
  A character \<open>c\<close> of a pattern compiled with \<open>re.IGNORECASE\<close>, for an ASCII \<open>c\<close>: it matches
  itself, the same ASCII letter in the other case, and the few other characters whose lower
  case is that letter (for \<open>i\<close> the dotted capital and the dotless small letter, for \<open>k\<close> the
  Kelvin sign, for \<open>s\<close> the long s).
\<close>

definition same_letter :: "codepoint \<Rightarrow> codepoint \<Rightarrow> bool" where
  "same_letter c x \<longleftrightarrow>
     ascii_lower x = ascii_lower c
     \<or> (ascii_lower c = 105 \<and> (x = 304 \<or> x = 305))
     \<or> (ascii_lower c = 107 \<and> x = 8490)
     \<or> (ascii_lower c = 115 \<and> x = 383)"

datatype cls =
    Only codepoint
  | Except codepoint
  | Dot
  | Digit
  | Space
  | Between codepoint codepoint
  | NoCase codepoint

text \<open>
  \<open>Digit\<close> is \<open>\d\<close>, \<open>Space\<close> is \<open>\s\<close>, \<open>Between a b\<close> is a range such as \<open>[0-5]\<close>, and
  \<open>NoCase c\<close> is the character \<open>c\<close> in a pattern that ignores case.
\<close>

fun cls_ok :: "cls \<Rightarrow> codepoint \<Rightarrow> bool" where
  "cls_ok (Only c) x = (x = c)"
| "cls_ok (Except c) x = (x \<noteq> c)"
| "cls_ok Dot x = (x \<noteq> 10)"
| "cls_ok Digit x = (decimal_value x \<noteq> None)"
| "cls_ok Space x = isspace x"
| "cls_ok (Between a b) x = (a \<le> x \<and> x \<le> b)"
| "cls_ok (NoCase c) x = same_letter c x"

datatype re =
    Eps
  | Cls cls
  | Rep cls nat
  | Cat re re
  | Alt re re
  | Opt re
  | Group string re
  | Bol
  | Eol

type_synonym groups = "string \<Rightarrow> str option"

fun matches :: "nat \<Rightarrow> re \<Rightarrow> str \<times> groups \<Rightarrow> (str \<times> groups) list" where
  "matches n Eps st = [st]"
| "matches n (Cls c) (s, g) =
     (case s of [] \<Rightarrow> [] | x # t \<Rightarrow> if cls_ok c x then [(t, g)] else [])"
| "matches n (Rep c k) (s, g) =
     map (\<lambda>i. (drop i s, g)) (rev [k ..< Suc (length (takeWhile (cls_ok c) s))])"
| "matches n (Cat a b) st = concat (map (matches n b) (matches n a st))"
| "matches n (Alt a b) st = matches n a st @ matches n b st"
| "matches n (Opt a) st = matches n a st @ [st]"
| "matches n (Group name a) (s, g) =
     map (\<lambda>(t, g'). (t, g'(name \<mapsto> take (length s - length t) s))) (matches n a (s, g))"
| "matches n Bol (s, g) = (if length s = n then [(s, g)] else [])"
| "matches n Eol (s, g) = (if s = [] \<or> s = [10] then [(s, g)] else [])"

text \<open>\<open>pattern.match(s)\<close>: the first match at the start of the text, if there is one.\<close>

definition re_match :: "re \<Rightarrow> str \<Rightarrow> groups option" where
  "re_match r s =
     (case matches (length s) r (s, Map.empty) of [] \<Rightarrow> None | (t, g) # _ \<Rightarrow> Some g)"

text \<open>A literal text, and a literal text in a pattern that ignores case.\<close>

fun lit :: "str \<Rightarrow> re" where
  "lit [] = Eps"
| "lit [c] = Cls (Only c)"
| "lit (c # cs) = Cat (Cls (Only c)) (lit cs)"

fun lit_nocase :: "str \<Rightarrow> re" where
  "lit_nocase [] = Eps"
| "lit_nocase [c] = Cls (NoCase c)"
| "lit_nocase (c # cs) = Cat (Cls (NoCase c)) (lit_nocase cs)"

section \<open>Scan results\<close>

text \<open>
  \<open>RESULT_REGEX\<close>:
  \<^verbatim>\<open>^(?P<path>[^:]*): ((?P<reason>.+) )?(?P<status>(FOUND|OK|ERROR))$\<close>.
  The group without a name inside \<open>status\<close> is never read and is not recorded.
\<close>

definition RESULT_REGEX :: re where
  "RESULT_REGEX =
     Cat Bol
      (Cat (Group ''path'' (Rep (Except 58) 0))
        (Cat (lit (ascii '': ''))
          (Cat (Opt (Cat (Group ''reason'' (Rep Dot 1)) (lit (ascii '' ''))))
            (Cat (Group ''status''
                    (Alt (lit (ascii ''FOUND'')) (Alt (lit (ascii ''OK'')) (lit (ascii ''ERROR'')))))
              Eol))))"

text \<open>
  The field \<open>path\<close> of a result is \<open>Path(groups[0])\<close>, kept here as the text given to \<open>Path\<close>,
  or the literal \<open>stream\<close>.
\<close>

datatype scan_path = Path str | Stream

record ScanResult =
  path :: scan_path
  reason :: "str option"
  status :: str

text \<open>
  \<open>ScanResult._from_str\<close>. A group that took no part in the match is \<open>None\<close>; \<open>Path(None)\<close>
  raises \<open>TypeError\<close>. The groups \<open>path\<close> and \<open>status\<close> take part in every match.
\<close>

definition ScanResult_from_str :: "str \<Rightarrow> str \<Rightarrow> bool \<Rightarrow> error + ScanResult" where
  "ScanResult_from_str string cmd stream =
     (case re_match RESULT_REGEX string of
        None \<Rightarrow> Inl (ResponseError cmd (ascii ''Unable to match string: '' @ string))
      | Some g \<Rightarrow>
          (case (g ''path'', g ''status'') of
             (Some p, Some st) \<Rightarrow>
               Inr \<lparr>path = (if stream then Stream else Path p), reason = g ''reason'',
                    status = st\<rparr>
           | _ \<Rightarrow> Inl TypeError))"

datatype 'a reply = Raw str | Parsed 'a

text \<open>The list comprehension of \<open>_any_scan\<close>: line by line, the first exception ends it.\<close>

fun scan_lines :: "str \<Rightarrow> str list \<Rightarrow> error + ScanResult list" where
  "scan_lines cmd [] = Inr []"
| "scan_lines cmd (l # ls) =
     (case ScanResult_from_str l cmd False of
        Inl e \<Rightarrow> Inl e
      | Inr r \<Rightarrow> (case scan_lines cmd ls of Inl e \<Rightarrow> Inl e | Inr rs \<Rightarrow> Inr (r # rs)))"

text \<open>
  \<open>_any_scan\<close>. The function \<open>absolute\<close> stands for \<open>str(Path(path).absolute())\<close>, which
  depends on the working directory of the process.
\<close>

definition any_scan ::
  "clamd \<Rightarrow> oserror + sock \<Rightarrow> (str \<Rightarrow> str) \<Rightarrow> str \<Rightarrow> str \<Rightarrow> bool
     \<Rightarrow> error + ScanResult list reply" where
  "any_scan self connect absolute cmd p raw =
     (case command self connect cmd [absolute p] True False of
        Inl e \<Rightarrow> Inl e
      | Inr result \<Rightarrow>
          if raw then Inr (Raw result)
          else (case scan_lines cmd (split (endline self) result) of
                  Inl e \<Rightarrow> Inl e
                | Inr rs \<Rightarrow> Inr (Parsed rs)))"

definition scan ::
  "clamd \<Rightarrow> oserror + sock \<Rightarrow> (str \<Rightarrow> str) \<Rightarrow> str \<Rightarrow> bool \<Rightarrow> error + ScanResult list reply" where
  "scan self connect absolute p raw = any_scan self connect absolute (ascii ''SCAN'') p raw"

definition contscan ::
  "clamd \<Rightarrow> oserror + sock \<Rightarrow> (str \<Rightarrow> str) \<Rightarrow> str \<Rightarrow> bool \<Rightarrow> error + ScanResult list reply" where
  "contscan self connect absolute p raw =
     any_scan self connect absolute (ascii ''CONTSCAN'') p raw"

definition multiscan ::
  "clamd \<Rightarrow> oserror + sock \<Rightarrow> (str \<Rightarrow> str) \<Rightarrow> str \<Rightarrow> bool \<Rightarrow> error + ScanResult list reply" where
  "multiscan self connect absolute p raw =
     any_scan self connect absolute (ascii ''MULTISCAN'') p raw"

section \<open>Streamed upload\<close>

text \<open>
  \<open>struct.pack("!L", n)\<close>: the four octets of an unsigned 32-bit integer, most significant
  first; \<open>struct.error\<close> when \<open>n\<close> does not fit.
\<close>

definition pack_L :: "nat \<Rightarrow> error + bytes" where
  "pack_L n =
     (if n < 2 ^ 32 then
        Inr [of_nat (n div 2 ^ 24), of_nat (n div 2 ^ 16 mod 256), of_nat (n div 2 ^ 8 mod 256),
             of_nat (n mod 256)]
      else Inl StructError)"

text \<open>
  The byte source is any object with a \<open>read\<close> method (\<open>SupportsRead[bytes]\<close>). A reader
  \<open>rd\<close> gives, for the size asked for and the state of the source, what \<open>buff.read(size)\<close>
  returns or raises, and the state of the source after the call.
\<close>

type_synonym 'src reader = "int \<Rightarrow> 'src \<Rightarrow> (error + bytes) \<times> 'src"

text \<open>
  \<open>io.BytesIO\<close>, given by the octets that are still unread: \<open>read(n)\<close> returns up to \<open>n\<close> of
  them, all of them when \<open>n\<close> is negative, and leaves the others; a size that does not fit a
  signed 64-bit index raises \<open>OverflowError\<close>.
\<close>

definition BytesIO_read :: "bytes reader" where
  "BytesIO_read n buff =
     (if n < - (2 ^ 63) \<or> 2 ^ 63 \<le> n then (Inl OverflowError, buff)
      else if n < 0 then (Inr buff, [])
      else (Inr (take (nat n) buff), drop (nat n) buff))"

text \<open>
  The \<open>while chunk:\<close> loop of \<open>instream\<close>, entered with the chunk that was read last and the
  source as that read left it. A source that never returns an empty chunk keeps the loop
  running for ever: the result is then \<open>None\<close>.
\<close>

partial_function (option) send_chunks ::
  "'src reader \<Rightarrow> int \<Rightarrow> bytes \<Rightarrow> 'src \<Rightarrow> sock \<Rightarrow> (error + sock) option" where
  "send_chunks rd n chunk src s =
     (if chunk \<noteq> [] then
        (case pack_L (length chunk) of
           Inl e \<Rightarrow> Some (Inl e)
         | Inr hdr \<Rightarrow>
             (case sendall s (hdr @ chunk) of
                Inl e \<Rightarrow> Some (Inl e)
              | Inr s' \<Rightarrow>
                  (case rd n src of
                     (Inl e, src') \<Rightarrow> Some (Inl e)
                   | (Inr chunk', src') \<Rightarrow> send_chunks rd n chunk' src' s')))
      else Some (Inr s))"

text \<open>
  \<open>instream\<close>, in two parts: \<open>instream_upload\<close> is what the method writes on the socket
  (the frame, the chunks, the four zero octets), \<open>instream\<close> the whole method; both are
  \<open>None\<close> when the loop does not end. The parameter
  \<open>max_chunk_size\<close> is \<open>None\<close> or an integer, and \<open>max_chunk_size or self.max_chunk_size\<close>
  takes the session's value for \<open>None\<close> and for 0.
\<close>

definition chunk_size :: "clamd \<Rightarrow> int option \<Rightarrow> int" where
  "chunk_size self m =
     (case m of None \<Rightarrow> max_chunk_size self
      | Some k \<Rightarrow> if k = 0 then max_chunk_size self else k)"

definition instream_upload ::
  "'src reader \<Rightarrow> clamd \<Rightarrow> sock \<Rightarrow> 'src \<Rightarrow> int option \<Rightarrow> (error + sock) option" where
  "instream_upload rd self s src m =
     (let n = chunk_size self m in
      case send self s (ascii ''INSTREAM'') [] of
        Inl e \<Rightarrow> Some (Inl e)
      | Inr s1 \<Rightarrow>
          (case rd n src of
             (Inl e, src') \<Rightarrow> Some (Inl e)
           | (Inr chunk, src') \<Rightarrow>
               (case send_chunks rd n chunk src' s1 of
                  None \<Rightarrow> None
                | Some (Inl e) \<Rightarrow> Some (Inl e)
                | Some (Inr s2) \<Rightarrow>
                    (case pack_L 0 of Inl e \<Rightarrow> Some (Inl e) | Inr z \<Rightarrow> Some (sendall s2 z)))))"

definition instream ::
  "'src reader \<Rightarrow> clamd \<Rightarrow> oserror + sock \<Rightarrow> 'src \<Rightarrow> bool \<Rightarrow> int option
     \<Rightarrow> (error + ScanResult reply) option" where
  "instream rd self connect src raw m =
     (case acquire_socket self connect of
        Inl e \<Rightarrow> Some (Inl e)
      | Inr s \<Rightarrow>
          (case instream_upload rd self s src m of
             None \<Rightarrow> None
           | Some (Inl e) \<Rightarrow> Some (Inl e)
           | Some (Inr s') \<Rightarrow>
               Some
                (case recv self s' True of
                   Inl e \<Rightarrow> Inl e
                 | Inr result \<Rightarrow>
                     if contains (ascii ''INSTREAM size limit exceeded'') result then
                       (case rsplit1 (ascii ''ERROR'') result of
                          r0 # _ \<Rightarrow> Inl (BufferTooLongError (strip r0))
                        | [] \<Rightarrow> Inl IndexError)
                     else if raw then Inr (Raw result)
                     else (case ScanResult_from_str result (ascii ''INSTREAM'') True of
                             Inl e \<Rightarrow> Inl e
                           | Inr r \<Rightarrow> Inr (Parsed r)))))"

text \<open>The names of the groups of an expression.\<close>

fun group_names :: "re \<Rightarrow> string set" where
  "group_names (Cat a b) = group_names a \<union> group_names b"
| "group_names (Alt a b) = group_names a \<union> group_names b"
| "group_names (Opt a) = group_names a"
| "group_names (Group name a) = insert name (group_names a)"
| "group_names _ = {}"

text \<open>The octets of an ASCII text, for the replies of the examples.\<close>

definition ascii_bytes :: "string \<Rightarrow> bytes" where
  "ascii_bytes s = map of_char s"


function chunks :: "nat \<Rightarrow> 'a list \<Rightarrow> 'a list list" where
  "chunks k xs = (if xs = [] \<or> k = 0 then [] else take k xs # chunks k (drop k xs))"
  by pat_completeness auto
termination
  by (relation "measure (\<lambda>(k, xs). length xs)") auto

declare chunks.simps [simp del]


text \<open>
  \<open>yields rd n src cs\<close>: the successive calls \<open>read(n)\<close> on the source return the chunks
  \<open>cs\<close>, none of them empty, and then an empty result.
\<close>

fun yields :: "'src reader \<Rightarrow> int \<Rightarrow> 'src \<Rightarrow> bytes list \<Rightarrow> bool" where
  "yields rd n src [] = (fst (rd n src) = Inr [])"
| "yields rd n src (c # cs) =
     (c \<noteq> [] \<and> fst (rd n src) = Inr c \<and> yields rd n (snd (rd n src)) cs)"

text \<open>A source that returns one octet for every call of \<open>read\<close>, whatever the size asked for.\<close>

definition one_at_a_time :: "bytes reader" where
  "one_at_a_time n src = (Inr (take 1 src), drop 1 src)"

section \<open>Version information\<close>

text \<open>
  \<open>int(s)\<close> for a text: white space around it is dropped; then comes an optional sign and
  decimal digits, where one underscore may stand between two digits. Anything else raises
  \<open>ValueError\<close>, and so do more than 4300 digits (the default limit of Python 3.11). The
  white space of \<open>int\<close> is that of \<open>str.isspace\<close> without the four separators U+001C to
  U+001F, and the digits are the decimal digits of every script.
\<close>

definition int_space :: "codepoint \<Rightarrow> bool" where
  "int_space c \<longleftrightarrow> isspace c \<and> \<not> (28 \<le> c \<and> c \<le> 31)"

text \<open>\<open>parse_digits\<close> returns the value of the digits and their number.\<close>

fun parse_digits :: "nat \<Rightarrow> nat \<Rightarrow> str \<Rightarrow> (nat \<times> nat) option" where
  "parse_digits acc cnt [] = Some (acc, cnt)"
| "parse_digits acc cnt (c # cs) =
     (if c = 95 then
        (case cs of
           [] \<Rightarrow> None
         | d # _ \<Rightarrow> if decimal_value d \<noteq> None then parse_digits acc cnt cs else None)
      else
        (case decimal_value c of
           None \<Rightarrow> None
         | Some v \<Rightarrow> parse_digits (acc * 10 + v) (Suc cnt) cs))"

definition int_of_str :: "str \<Rightarrow> error + int" where
  "int_of_str s =
     (case rev (dropWhile int_space (rev (dropWhile int_space s))) of
        [] \<Rightarrow> Inl ValueError
      | c # cs \<Rightarrow>
          (let body = (if c = 45 \<or> c = 43 then cs else c # cs) in
           case body of
             [] \<Rightarrow> Inl ValueError
           | d # _ \<Rightarrow>
               if decimal_value d \<noteq> None then
                 (case parse_digits 0 0 body of
                    None \<Rightarrow> Inl ValueError
                  | Some (n, cnt) \<Rightarrow>
                      if cnt > 4300 then Inl ValueError
                      else Inr (if c = 45 then - int n else int n))
               else Inl ValueError))"

text \<open>
  \<open>datetime.strptime(s, "%a %b %d %H:%M:%S %Y")\<close>. The names of the days and of the months
  come from the locale of the process (\<open>LocaleTime\<close>, in lower case). The format is turned
  into the regular expression below, compiled with \<open>re.IGNORECASE\<close>; the text has to match
  to its end; the numbers are read with \<open>int\<close>, the month is the position of its name, the
  day of the week is parsed and not used, and the date and the time have to exist.
\<close>

record locale_time =
  a_weekday :: "str list"
  a_month :: "str list"

definition C_locale :: locale_time where
  "C_locale =
     \<lparr>a_weekday = map ascii [''mon'', ''tue'', ''wed'', ''thu'', ''fri'', ''sat'', ''sun''],
      a_month = map ascii [''jan'', ''feb'', ''mar'', ''apr'', ''may'', ''jun'', ''jul'', ''aug'',
                            ''sep'', ''oct'', ''nov'', ''dec'']\<rparr>"

fun alts :: "re list \<Rightarrow> re" where
  "alts [] = Eps"
| "alts [r] = r"
| "alts (r # rs) = Alt r (alts rs)"

text \<open>\<open>__seqToRE\<close>: the names, longest first, as alternatives.\<close>

definition seqToRE :: "str list \<Rightarrow> re" where
  "seqToRE names = alts (map lit_nocase (sort_key (\<lambda>w. - int (length w)) names))"

fun cats :: "re list \<Rightarrow> re" where
  "cats [] = Eps"
| "cats [r] = r"
| "cats (r # rs) = Cat r (cats rs)"

text \<open>
  The pattern of the format:
  \<^verbatim>\<open>(?P<a>mon|...)\s+(?P<b>jan|...)\s+(?P<d>3[0-1]|[1-2]\d|0[1-9]|[1-9]| [1-9])\s+\<close>
  \<^verbatim>\<open>(?P<H>2[0-3]|[0-1]\d|\d):(?P<M>[0-5]\d|\d):(?P<S>6[0-1]|[0-5]\d|\d)\s+(?P<Y>\d\d\d\d)\<close>
\<close>

definition strptime_regex :: "locale_time \<Rightarrow> re" where
  "strptime_regex loc =
     cats
      [Group ''a'' (seqToRE (a_weekday loc)),
       Rep Space 1,
       Group ''b'' (seqToRE (a_month loc)),
       Rep Space 1,
       Group ''d''
         (alts [Cat (Cls (Only 51)) (Cls (Between 48 49)),
                Cat (Cls (Between 49 50)) (Cls Digit),
                Cat (Cls (Only 48)) (Cls (Between 49 57)),
                Cls (Between 49 57),
                Cat (Cls (Only 32)) (Cls (Between 49 57))]),
       Rep Space 1,
       Group ''H''
         (alts [Cat (Cls (Only 50)) (Cls (Between 48 51)),
                Cat (Cls (Between 48 49)) (Cls Digit),
                Cls Digit]),
       Cls (Only 58),
       Group ''M'' (alts [Cat (Cls (Between 48 53)) (Cls Digit), Cls Digit]),
       Cls (Only 58),
       Group ''S''
         (alts [Cat (Cls (Only 54)) (Cls (Between 48 49)),
                Cat (Cls (Between 48 53)) (Cls Digit),
                Cls Digit]),
       Rep Space 1,
       Group ''Y'' (cats [Cls Digit, Cls Digit, Cls Digit, Cls Digit])]"

record datetime =
  year :: int
  month :: int
  day :: int
  hour :: int
  minute :: int
  second :: int

definition is_leap :: "int \<Rightarrow> bool" where
  "is_leap y \<longleftrightarrow> y mod 4 = 0 \<and> (y mod 100 \<noteq> 0 \<or> y mod 400 = 0)"

definition days_in_month :: "int \<Rightarrow> int \<Rightarrow> int" where
  "days_in_month y m =
     (if m = 2 then (if is_leap y then 29 else 28)
      else if m = 4 \<or> m = 6 \<or> m = 9 \<or> m = 11 then 30 else 31)"

text \<open>
  \<open>xs.index(x)\<close>, and \<open>t.lower()\<close> as far as a comparison with names of ASCII letters
  needs it: the ASCII capitals and the Kelvin sign become small ASCII letters, and no other
  character becomes one.
\<close>

fun index_of :: "'a \<Rightarrow> 'a list \<Rightarrow> nat option" where
  "index_of x [] = None"
| "index_of x (y # ys) = (if x = y then Some 0 else map_option Suc (index_of x ys))"

definition lower :: "str \<Rightarrow> str" where
  "lower s = map (\<lambda>c. if c = 8490 then 107 else ascii_lower c) s"

definition group_int :: "groups \<Rightarrow> string \<Rightarrow> error + int" where
  "group_int g name = (case g name of None \<Rightarrow> Inl TypeError | Some t \<Rightarrow> int_of_str t)"

definition group_index :: "groups \<Rightarrow> string \<Rightarrow> str list \<Rightarrow> error + int" where
  "group_index g name names =
     (case g name of
        None \<Rightarrow> Inl TypeError
      | Some t \<Rightarrow>
          (case index_of (lower t) names of None \<Rightarrow> Inl ValueError | Some i \<Rightarrow> Inr (int i)))"

definition strptime :: "locale_time \<Rightarrow> str \<Rightarrow> error + datetime" where
  "strptime loc s =
     (case matches (length s) (strptime_regex loc) (s, Map.empty) of
        [] \<Rightarrow> Inl ValueError
      | (rest, g) # _ \<Rightarrow>
          if rest \<noteq> [] then Inl ValueError
          else
            (case (group_int g ''Y'', group_index g ''b'' (a_month loc), group_int g ''d'',
                   group_int g ''H'', group_int g ''M'', group_int g ''S'',
                   group_index g ''a'' (a_weekday loc)) of
               (Inr y, Inr m, Inr d, Inr hh, Inr mm, Inr ss, Inr wd) \<Rightarrow>
                 if 1 \<le> y \<and> y \<le> 9999 \<and> 1 \<le> d \<and> d \<le> days_in_month y (m + 1) \<and> ss \<le> 59 then
                   Inr \<lparr>year = y, month = m + 1, day = d, hour = hh, minute = mm, second = ss\<rparr>
                 else Inl ValueError
             | _ \<Rightarrow> Inl ValueError))"

record VersionInfo =
  version :: str
  signature :: int
  signature_date :: datetime

text \<open>
  \<open>VersionInfo._from_str\<close>: the fields are taken by index, in the order in which the
  arguments of the constructor are evaluated; an index past the last field raises
  \<open>IndexError\<close>.
\<close>

definition VersionInfo_from_str :: "locale_time \<Rightarrow> str \<Rightarrow> error + VersionInfo" where
  "VersionInfo_from_str loc string =
     (case split 47 string of
        [] \<Rightarrow> Inl IndexError
      | f0 # fs1 \<Rightarrow>
          (case fs1 of
             [] \<Rightarrow> Inl IndexError
           | f1 # fs2 \<Rightarrow>
               (case int_of_str f1 of
                  Inl e \<Rightarrow> Inl e
                | Inr n \<Rightarrow>
                    (case fs2 of
                       [] \<Rightarrow> Inl IndexError
                     | f2 # _ \<Rightarrow>
                         (case strptime loc f2 of
                            Inl e \<Rightarrow> Inl e
                          | Inr d \<Rightarrow>
                              Inr \<lparr>version = f0, signature = n, signature_date = d\<rparr>)))))"

text \<open>The method \<open>version\<close> of the session.\<close>

definition get_version ::
  "clamd \<Rightarrow> oserror + sock \<Rightarrow> locale_time \<Rightarrow> bool \<Rightarrow> error + VersionInfo reply" where
  "get_version self connect loc raw =
     (case command self connect (ascii ''VERSION'') [] True True of
        Inl e \<Rightarrow> Inl e
      | Inr rv \<Rightarrow>
          if raw then Inr (Raw rv)
          else (case VersionInfo_from_str loc rv of
                  Inl e \<Rightarrow> Inl e
                | Inr v \<Rightarrow> Inr (Parsed v)))"

text \<open>A locale with other names than the English ones: the Dutch abbreviations.\<close>

definition nl_locale :: locale_time where
  "nl_locale =
     \<lparr>a_weekday = map ascii [''ma'', ''di'', ''wo'', ''do'', ''vr'', ''za'', ''zo''],
      a_month = map ascii [''jan'', ''feb'', ''mrt'', ''apr'', ''mei'', ''jun'', ''jul'', ''aug'',
                            ''sep'', ''okt'', ''nov'', ''dec'']\<rparr>"

section \<open>Facts about the text operations\<close>

lemma ascii_simps [simp]:
  "ascii [] = []" "ascii (c # cs) = of_char c # ascii cs"
  by (simp_all add: ascii_def)

lemma join_space: "args \<noteq> [] \<Longrightarrow> [c] @ join [c] args = concat (map ((#) c) args)"
  by (induction "[c]" args rule: join.induct) simp_all

lemma strip_chars_frame:
  "l \<noteq> e \<Longrightarrow> strip_chars [e] (l # body @ [e]) = l # rev (dropWhile (\<lambda>c. c = e) (rev body))"
  by (simp add: strip_chars_def dropWhile_append)

lemma rsplit_last_sound: "rsplit_last sep s = Some (a, b) \<Longrightarrow> s = a @ sep @ b"
proof (induction s arbitrary: a b)
  case Nil then show ?case by simp
next
  case (Cons x xs)
  show ?case
  proof (cases "rsplit_last sep xs")
    case None
    with Cons.prems have "take (length sep) (x # xs) = sep" "a = []" "b = drop (length sep) (x # xs)"
      by (auto split: if_splits)
    then show ?thesis by (metis append_Nil append_take_drop_id)
  next
    case (Some p)
    obtain a0 b0 where p: "p = (a0, b0)" by (cases p)
    with Some Cons.prems have "a = x # a0" "b = b0" by auto
    with Cons.IH [of a0 b0] Some p show ?thesis by simp
  qed
qed

lemma rsplit_last_None: "sep \<noteq> [] \<Longrightarrow> rsplit_last sep s = None \<Longrightarrow> s \<noteq> a @ sep @ b"
proof (induction s arbitrary: a)
  case Nil then show ?case by simp
next
  case (Cons x xs)
  from Cons.prems have n: "rsplit_last sep xs = None" and t: "take (length sep) (x # xs) \<noteq> sep"
    by (auto split: option.splits if_splits)
  show ?case
  proof (cases a)
    case Nil
    show ?thesis
    proof
      assume "x # xs = a @ sep @ b"
      with Nil have "take (length sep) (x # xs) = sep" by simp
      with t show False by simp
    qed
  next
    case (Cons y ys)
    from Cons.IH [OF Cons.prems(1) n, of ys] Cons show ?thesis by auto
  qed
qed

lemma rsplit_last_rightmost:
  "sep \<noteq> [] \<Longrightarrow> rsplit_last sep s = Some (a, b) \<Longrightarrow> s = a' @ sep @ b' \<Longrightarrow> length a' \<le> length a"
proof (induction s arbitrary: a a')
  case Nil then show ?case by simp
next
  case (Cons x xs)
  show ?case
  proof (cases a')
    case Nil then show ?thesis by simp
  next
    case c: (Cons y ys)
    with Cons.prems(3) have xs: "xs = ys @ sep @ b'" by simp
    show ?thesis
    proof (cases "rsplit_last sep xs")
      case None
      from rsplit_last_None [OF Cons.prems(1) None, of ys b'] xs show ?thesis by simp
    next
      case (Some p)
      obtain a0 b0 where p: "p = (a0, b0)" by (cases p)
      with Some Cons.prems(2) have "a = x # a0" "b = b0" by auto
      with Cons.IH [OF Cons.prems(1), of a0 ys] Some p xs c show ?thesis by simp
    qed
  qed
qed

lemma rsplit_last_eq:
  assumes "sep \<noteq> []" "s = pre @ sep @ post"
    and "\<forall>pre' post'. s = pre' @ sep @ post' \<longrightarrow> length pre' \<le> length pre"
  shows "rsplit_last sep s = Some (pre, post)"
proof (cases "rsplit_last sep s")
  case None
  from rsplit_last_None [OF assms(1) None] assms(2) show ?thesis by blast
next
  case (Some p)
  obtain a b where p: "p = (a, b)" by (cases p)
  from rsplit_last_sound [of sep s a b] Some p have s: "s = a @ sep @ b" by simp
  from rsplit_last_rightmost [OF assms(1), of s a b pre post] Some p assms(2)
  have "length pre \<le> length a" by simp
  moreover from assms(3) s have "length a \<le> length pre" by blast
  ultimately have "length a = length pre" by simp
  with s assms(2) have "a = pre" "b = post" by auto
  with Some p show ?thesis by simp
qed

section \<open>UTF-8 decoding inverts encoding\<close>

lemma radix64_sum3: "(64::nat) * q + r = a \<Longrightarrow> 64 * a + m = c \<Longrightarrow> q * 4096 + r * 64 + m = c"
  by linarith

lemma radix64_sum4: "(64::nat) * p + r2 = q \<Longrightarrow> 64 * q + r = a \<Longrightarrow> 64 * a + m = c \<Longrightarrow> p * 262144 + r2 * 4096 + r * 64 + m = c"
  by linarith

lemma three_digits_base64: "(c::nat) div 4096 * 4096 + c div 64 mod 64 * 64 + c mod 64 = c"
proof -
  have q: "c div 4096 = c div 64 div 64" by (simp add: div_mult2_eq)
  show ?thesis unfolding q by (rule radix64_sum3 [of "c div 64 div 64" _ "c div 64"]) simp_all
qed

lemma four_digits_base64: "(c::nat) div 262144 * 262144 + c div 4096 mod 64 * 4096 + c div 64 mod 64 * 64 + c mod 64 = c"
proof -
  have q: "c div 4096 = c div 64 div 64" "c div 262144 = c div 64 div 64 div 64" by (simp_all add: div_mult2_eq)
  show ?thesis unfolding q by (rule radix64_sum4 [of "c div 64 div 64 div 64" _ "c div 64 div 64" _ "c div 64"]) simp_all
qed


lemma unat_byte: "n < 256 \<Longrightarrow> unat (of_nat n :: byte) = n"
  by (simp add: unat_of_nat)

lemma mod64_le: "(c::nat) mod 64 \<le> 63"
  using mod_less_divisor [of 64 c] by linarith

lemma decode_1octet: "c < 0x80 \<Longrightarrow> decode (of_nat c # rest) = (case decode rest of Inl e \<Rightarrow> Inl e | Inr s \<Rightarrow> Inr (c # s))"
  by (simp add: word_less_nat_alt word_le_nat_alt unat_byte split: sum.splits)

lemma decode_2octets: "\<not> c < 0x80 \<Longrightarrow> c < 0x800 \<Longrightarrow> decode (of_nat (0xC0 + c div 64) # of_nat (0x80 + c mod 64) # rest) = (case decode rest of Inl e \<Rightarrow> Inl e | Inr s \<Rightarrow> Inr (c # s))"
proof -
  assume a: "\<not> c < 0x80" "c < 0x800"
  have 1: "unat (of_nat (0xC0 + c div 64) :: byte) = 0xC0 + c div 64" using a by (intro unat_byte) simp
  have 2: "unat (of_nat (0x80 + c mod 64) :: byte) = 0x80 + c mod 64" by (intro unat_byte) simp
  have 3: "2 \<le> c div 64" "c div 64 \<le> 31" using a by simp_all
  show ?thesis using a 3 mod64_le[of c]
    by (simp add: word_less_nat_alt word_le_nat_alt 1 2 is_cont_def cont_bits_def split: sum.splits del: of_nat_add)
qed

lemma decode_3octets: "\<not> c < 0x800 \<Longrightarrow> \<not> (0xD800 \<le> c \<and> c < 0xE000) \<Longrightarrow> c < 0x10000 \<Longrightarrow> 
   decode (of_nat (0xE0 + c div 4096) # of_nat (0x80 + c div 64 mod 64) # of_nat (0x80 + c mod 64) # rest) = (case decode rest of Inl e \<Rightarrow> Inl e | Inr s \<Rightarrow> Inr (c # s))"
proof -
  assume a: "\<not> c < 0x800" "\<not> (0xD800 \<le> c \<and> c < 0xE000)" "c < 0x10000"
  define q where "q = c div 4096"
  define r where "r = c div 64 mod 64"
  define m where "m = c mod 64"
  have c: "q * 4096 + r * 64 + m = c" unfolding q_def r_def m_def by (rule three_digits_base64)
  have b: "r \<le> 63" "m \<le> 63" unfolding r_def m_def by (rule mod64_le)+
  have 4: "q \<le> 15" using a c by linarith
  have 5: "q = 0 \<Longrightarrow> 32 \<le> r" using a c b by linarith
  have 6: "q = 13 \<Longrightarrow> r \<le> 31" using a c b by linarith
  have 1: "unat (of_nat (0xE0 + q) :: byte) = 0xE0 + q" using 4 by (intro unat_byte) simp
  have 2: "unat (of_nat (0x80 + r) :: byte) = 0x80 + r" using b by (intro unat_byte) simp
  have 3: "unat (of_nat (0x80 + m) :: byte) = 0x80 + m" using b by (intro unat_byte) simp
  have "decode (of_nat (0xE0 + q) # of_nat (0x80 + r) # of_nat (0x80 + m) # rest) = (case decode rest of Inl e \<Rightarrow> Inl e | Inr s \<Rightarrow> Inr ((q * 4096 + r * 64 + m) # s))"
    using 4 5 6 b
    by (simp add: word_less_nat_alt word_le_nat_alt 1 2 3 is_cont_def cont_bits_def word_unat_eq_iff split: sum.splits del: of_nat_add)
  then show ?thesis unfolding c unfolding q_def r_def m_def .
qed


lemma decode_4octets: "\<not> c < 0x10000 \<Longrightarrow> c < 0x110000 \<Longrightarrow> 
   decode (of_nat (0xF0 + c div 262144) # of_nat (0x80 + c div 4096 mod 64) # of_nat (0x80 + c div 64 mod 64) # of_nat (0x80 + c mod 64) # rest) = (case decode rest of Inl e \<Rightarrow> Inl e | Inr s \<Rightarrow> Inr (c # s))"
proof -
  assume a: "\<not> c < 0x10000" "c < 0x110000"
  define p where "p = c div 262144"
  define q where "q = c div 4096 mod 64"
  define r where "r = c div 64 mod 64"
  define m where "m = c mod 64"
  have c: "p * 262144 + q * 4096 + r * 64 + m = c" unfolding p_def q_def r_def m_def by (rule four_digits_base64)
  have b: "q \<le> 63" "r \<le> 63" "m \<le> 63" unfolding q_def r_def m_def by (rule mod64_le)+
  have 4: "p \<le> 4" using a c by linarith
  have 5: "p = 0 \<Longrightarrow> 16 \<le> q" using a c b by linarith
  have 6: "p = 4 \<Longrightarrow> q \<le> 15" using a c b by linarith
  have 1: "unat (of_nat (0xF0 + p) :: byte) = 0xF0 + p" using 4 by (intro unat_byte) simp
  have 2: "unat (of_nat (0x80 + q) :: byte) = 0x80 + q" using b by (intro unat_byte) simp
  have 3: "unat (of_nat (0x80 + r) :: byte) = 0x80 + r" using b by (intro unat_byte) simp
  have 7: "unat (of_nat (0x80 + m) :: byte) = 0x80 + m" using b by (intro unat_byte) simp
  have "decode (of_nat (0xF0 + p) # of_nat (0x80 + q) # of_nat (0x80 + r) # of_nat (0x80 + m) # rest) = (case decode rest of Inl e \<Rightarrow> Inl e | Inr s \<Rightarrow> Inr ((p * 262144 + q * 4096 + r * 64 + m) # s))"
    using 4 5 6 b
    by (simp add: word_less_nat_alt word_le_nat_alt 1 2 3 7 is_cont_def cont_bits_def word_unat_eq_iff split: sum.splits del: of_nat_add)
  then show ?thesis unfolding c unfolding p_def q_def r_def m_def .
qed

lemma decode_utf8_char:
  "utf8_char c = Inr bs \<Longrightarrow>
   decode (bs @ rest) = (case decode rest of Inl e \<Rightarrow> Inl e | Inr s \<Rightarrow> Inr (c # s))"
  unfolding utf8_char_def
  by (auto split: if_splits simp: decode_1octet decode_2octets decode_3octets decode_4octets simp del: decode.simps of_nat_add)

lemma decode_encode_append:
  "encode s = Inr bs \<Longrightarrow>
   decode (bs @ rest) = (case decode rest of Inl e \<Rightarrow> Inl e | Inr t \<Rightarrow> Inr (s @ t))"
proof (induction s arbitrary: bs)
  case Nil
  then show ?case by (simp split: sum.splits)
next
  case (Cons c s)
  then show ?case
    by (auto split: sum.splits simp: decode_utf8_char simp del: decode.simps)
qed

lemma decode_encode: "encode s = Inr bs \<Longrightarrow> decode bs = Inr s"
  using decode_encode_append [of s bs "[]"] by simp

lemma send_unfold:
  "send self s verb args =
     (case encode ((case line_terminator self of
                      LT_n \<Rightarrow> [110] @ verb @ concat (map ((#) 32) args) @ [10]
                    | LT_z \<Rightarrow> [122] @ verb @ concat (map ((#) 32) args) @ [0])) of
        Inl e \<Rightarrow> Inl e
      | Inr data \<Rightarrow>
          (case send_fault s of
             Some e \<Rightarrow> Inl (UncaughtOSError e)
           | None \<Rightarrow> Inr (s\<lparr>sent := sent s @ [data]\<rparr>)))"
proof (cases "args = []")
  case True
  then show ?thesis
    by (simp add: send_def line_terminator_str_def endline_def sendall_def
        split: line_terminator.splits sum.splits option.splits)
next
  case False
  from join_space [OF this, of 32] have "32 # join [32] args = concat (map ((#) 32) args)"
    by simp
  with False show ?thesis
    by (simp add: send_def line_terminator_str_def endline_def sendall_def
        split: line_terminator.splits sum.splits option.splits)
qed

section \<open>The command frame\<close>

text \<open>
  C1, as stated, fails: the first character of the frame is the mode letter \<open>n\<close> or \<open>z\<close>,
  not the terminator character. With the default session, \<open>PING\<close> is sent as the octets of
  \<open>nPING\<close> and a newline, where the specification's frame starts with a newline.
\<close>

theorem send_frame_counterexample:
  "send default_clamd (fresh_sock []) (ascii ''PING'') []
     = Inr ((fresh_sock [])\<lparr>sent := [[110, 80, 73, 78, 71, 10]]\<rparr>)
   \<and> encode (spec_frame (endline default_clamd) (ascii ''PING'') [])
     = Inr [10, 80, 73, 78, 71, 10]
   \<and> [110, 80, 73, 78, 71, 10] \<noteq> [10, 80, 73, 78, 71, (10::byte)]"
  by (simp add: send_def default_clamd_def fresh_sock_def line_terminator_str_def endline_def
      sendall_def spec_frame_def utf8_char_def)

text \<open>
  C1, amended: for every verb, argument list and terminator mode, \<open>_send\<close> hands to
  \<open>sendall\<close>, in one call, the UTF-8 encoding of the mode letter (\<open>n\<close> when the terminator is
  the newline, \<open>z\<close> when it is the NUL character), then the verb, then every argument preceded
  by one space, then the terminator character; it fails only if the text cannot be encoded or
  the socket refuses the write.
\<close>

theorem send_frame:
  "send self s verb args =
     (case encode ((case line_terminator self of
                      LT_n \<Rightarrow> [110] @ verb @ concat (map ((#) 32) args) @ [10]
                    | LT_z \<Rightarrow> [122] @ verb @ concat (map ((#) 32) args) @ [0])) of
        Inl e \<Rightarrow> Inl e
      | Inr data \<Rightarrow>
          (case send_fault s of
             Some e \<Rightarrow> Inl (UncaughtOSError e)
           | None \<Rightarrow> Inr (s\<lparr>sent := sent s @ [data]\<rparr>)))"
  by (rule send_unfold)

section \<open>Serializing, then stripping\<close>

lemma encode_append:
  "encode (xs @ ys) =
     (case encode xs of Inl e \<Rightarrow> Inl e
      | Inr a \<Rightarrow> (case encode ys of Inl e \<Rightarrow> Inl e | Inr b \<Rightarrow> Inr (a @ b)))"
  by (induction xs) (auto split: sum.splits)

text \<open>
  C2, as stated, fails: the frame of \<open>PING\<close> in the default session, read back and stripped
  as \<open>_recv\<close> strips a reply, is \<open>nPING\<close>; the mode letter stays in front of the verb.
\<close>

theorem frame_strip_counterexample:
  "send default_clamd (fresh_sock []) (ascii ''PING'') []
     = Inr ((fresh_sock [])\<lparr>sent := [[110, 80, 73, 78, 71, 10]]\<rparr>)
   \<and> recv default_clamd (fresh_sock [110, 80, 73, 78, 71, 10]) True = Inr (ascii ''nPING'')
   \<and> ascii ''nPING'' \<noteq> ascii ''PING''"
  by (simp add: send_def default_clamd_def fresh_sock_def line_terminator_str_def endline_def
      sendall_def utf8_char_def recv_def strip_chars_def)

text \<open>
  C2, amended: for every verb, argument list and terminator mode, when \<open>_send\<close> has written
  the frame, decoding these octets and stripping the terminator character from both ends, as
  \<open>_recv\<close> does with a whole reply, gives the mode letter (\<open>n\<close> or \<open>z\<close>) followed by the verb
  and the arguments, each argument after one space, without the terminator characters that
  this text may end with.
\<close>

theorem frame_strip_roundtrip:
  assumes "send self s verb args = Inr s'"
  shows "recv self (fresh_sock (last (sent s'))) True
           = Inr ((if line_terminator self = LT_n then 110 else 122)
                  # rev (dropWhile (\<lambda>c. c = endline self)
                          (rev (verb @ concat (map ((#) 32) args)))))"
proof -
  let ?l = "if line_terminator self = LT_n then 110 else (122::nat)"
  let ?body = "verb @ concat (map ((#) 32) args)"
  let ?cmd = "?l # ?body @ [endline self]"
  from assms obtain data where e: "encode ?cmd = Inr data" and s': "s' = s\<lparr>sent := sent s @ [data]\<rparr>"
    unfolding send_unfold
    by (auto split: sum.splits option.splits line_terminator.splits simp: endline_def)
  have ne: "?l \<noteq> endline self" by (simp add: endline_def)
  from decode_encode [OF e] have "decode data = Inr ?cmd" .
  with s' show ?thesis
    using strip_chars_frame [OF ne, of ?body]
    by (simp add: recv_def fresh_sock_def)
qed

theorem frame_strip_roundtrip_witness:
  "send (default_clamd\<lparr>line_terminator := LT_z\<rparr>) (fresh_sock []) (ascii ''SCAN'') [ascii ''/tmp/x'']
     = Inr ((fresh_sock [])\<lparr>sent := [[122, 83, 67, 65, 78, 32, 47, 116, 109, 112, 47, 120, 0]]\<rparr>)
   \<and> recv (default_clamd\<lparr>line_terminator := LT_z\<rparr>)
        (fresh_sock [122, 83, 67, 65, 78, 32, 47, 116, 109, 112, 47, 120, 0]) True
     = Inr (ascii ''zSCAN /tmp/x'')"
proof -
  have h: "send (default_clamd\<lparr>line_terminator := LT_z\<rparr>) (fresh_sock []) (ascii ''SCAN'')
             [ascii ''/tmp/x'']
           = Inr ((fresh_sock [])\<lparr>sent := [[122, 83, 67, 65, 78, 32, 47, 116, 109, 112, 47, 120, 0]]\<rparr>)"
    by (simp add: send_def default_clamd_def fresh_sock_def line_terminator_str_def endline_def
        sendall_def utf8_char_def)
  from frame_strip_roundtrip [OF h] h show ?thesis
    by (simp add: default_clamd_def endline_def)
qed

section \<open>Classification of the reply\<close>

lemma UNKNOWN_COMMAND_ascii: "UNKNOWN_COMMAND = [85, 78, 75, 78, 79, 87, 78, 32, 67, 79, 77, 77, 65, 78, 68]"
  by (simp add: UNKNOWN_COMMAND_def)

lemma COMMAND_READ_TIMED_OUT_ascii: "COMMAND_READ_TIMED_OUT = [67, 79, 77, 77, 65, 78, 68, 32, 82, 69, 65, 68, 32, 84, 73, 77, 69, 68, 32, 79, 85, 84]"
  by (simp add: COMMAND_READ_TIMED_OUT_def)

lemma command_after_recv:
  assumes "acquire_socket self connect = Inr s" "send self s cmd args = Inr s'"
    "recv self s' multiline = Inr reply"
  shows "command self connect cmd args multiline raise_on_error =
           (if reply = UNKNOWN_COMMAND then Inl (UnknownCommand cmd)
            else if reply = COMMAND_READ_TIMED_OUT then Inl (CommandReadTimedOut cmd)
            else if raise_on_error then
              (case rsplit_last (ascii ''ERROR'') reply of
                 Some (a, b) \<Rightarrow> Inl (ResponseError cmd (strip a))
               | None \<Rightarrow> Inr reply)
            else Inr reply)"
  using assms by (simp add: command_def rsplit1_def split: option.splits)

text \<open>
  C4: in a command run with \<open>raise_on_error\<close> set whose reply is neither sentinel, if the
  reply contains \<open>ERROR\<close> and \<open>pre\<close> is the text before its last occurrence, the call fails
  with \<open>ResponseError\<close> carrying the command and \<open>pre\<close> with the white space trimmed from both
  ends. In particular the reply \<open>Reason ERROR\<close> fails with \<open>ResponseError(command, "Reason")\<close>,
  and is returned as it is when \<open>raise_on_error\<close> is not set.
\<close>

theorem command_raise_on_error:
  assumes "acquire_socket self connect = Inr s" "send self s cmd args = Inr s'"
    "recv self s' multiline = Inr reply"
  shows "(reply \<noteq> UNKNOWN_COMMAND \<and> reply \<noteq> COMMAND_READ_TIMED_OUT
          \<and> reply = pre @ ascii ''ERROR'' @ post
          \<and> (\<forall>pre' post'. reply = pre' @ ascii ''ERROR'' @ post' \<longrightarrow> length pre' \<le> length pre)
          \<longrightarrow> command self connect cmd args multiline True
                = Inl (ResponseError cmd (strip pre)))
       \<and> (reply = ascii ''Reason ERROR''
          \<longrightarrow> command self connect cmd args multiline True
                = Inl (ResponseError cmd (ascii ''Reason''))
              \<and> command self connect cmd args multiline False = Inr (ascii ''Reason ERROR''))"
proof (intro conjI impI)
  assume a: "reply \<noteq> UNKNOWN_COMMAND \<and> reply \<noteq> COMMAND_READ_TIMED_OUT
          \<and> reply = pre @ ascii ''ERROR'' @ post
          \<and> (\<forall>pre' post'. reply = pre' @ ascii ''ERROR'' @ post' \<longrightarrow> length pre' \<le> length pre)"
  then have "rsplit_last (ascii ''ERROR'') reply = Some (pre, post)"
    by (intro rsplit_last_eq) simp_all
  moreover from a have "reply \<noteq> UNKNOWN_COMMAND" "reply \<noteq> COMMAND_READ_TIMED_OUT"
    by blast+
  ultimately show "command self connect cmd args multiline True = Inl (ResponseError cmd (strip pre))"
    unfolding command_after_recv [OF assms] by simp
next
  assume r: "reply = ascii ''Reason ERROR''"
  then show "command self connect cmd args multiline True = Inl (ResponseError cmd (ascii ''Reason''))"
    by (simp add: command_after_recv [OF assms] UNKNOWN_COMMAND_ascii COMMAND_READ_TIMED_OUT_ascii
        strip_def isspace_def)
  from r show "command self connect cmd args multiline False = Inr (ascii ''Reason ERROR'')"
    by (simp add: command_after_recv [OF assms] UNKNOWN_COMMAND_ascii COMMAND_READ_TIMED_OUT_ascii)
qed

theorem command_raise_on_error_witness:
  "command default_clamd (Inr reason_error_sock) (ascii ''DUMMY'') [] True True
     = Inl (ResponseError (ascii ''DUMMY'') (strip (ascii ''Reason '')))
   \<and> command default_clamd (Inr reason_error_sock) (ascii ''DUMMY'') [] True True
     = Inl (ResponseError (ascii ''DUMMY'') (ascii ''Reason''))
   \<and> command default_clamd (Inr reason_error_sock) (ascii ''DUMMY'') [] True False
     = Inr (ascii ''Reason ERROR'')"
proof -
  have h1: "acquire_socket default_clamd (Inr reason_error_sock) = Inr reason_error_sock"
    by (simp add: acquire_socket_def)
  have h2: "send default_clamd reason_error_sock (ascii ''DUMMY'') []
              = Inr (reason_error_sock\<lparr>sent := [[110, 68, 85, 77, 77, 89, 10]]\<rparr>)"
    by (simp add: send_def default_clamd_def reason_error_sock_def fresh_sock_def
        line_terminator_str_def endline_def sendall_def utf8_char_def)
  have h3: "recv default_clamd (reason_error_sock\<lparr>sent := [[110, 68, 85, 77, 77, 89, 10]]\<rparr>) True
              = Inr (ascii ''Reason ERROR'')"
    by (simp add: recv_def default_clamd_def reason_error_sock_def fresh_sock_def endline_def
        strip_chars_def)
  have m: "\<forall>pre' post'. ascii ''Reason ERROR'' = pre' @ ascii ''ERROR'' @ post'
             \<longrightarrow> length pre' \<le> length (ascii ''Reason '')"
  proof (intro allI impI)
    fix pre' post' :: str
    assume "ascii ''Reason ERROR'' = pre' @ ascii ''ERROR'' @ post'"
    then have "length (ascii ''Reason ERROR'') = length (pre' @ ascii ''ERROR'' @ post')"
      by (rule arg_cong)
    then show "length pre' \<le> length (ascii ''Reason '')" by simp
  qed
  have d: "ascii ''Reason ERROR'' \<noteq> UNKNOWN_COMMAND"
    "ascii ''Reason ERROR'' \<noteq> COMMAND_READ_TIMED_OUT"
    "ascii ''Reason ERROR'' = ascii ''Reason '' @ ascii ''ERROR'' @ []"
    by (simp_all add: UNKNOWN_COMMAND_def COMMAND_READ_TIMED_OUT_def)
  from command_raise_on_error [OF h1 h2 h3, of "ascii ''Reason ''" "[]"] m d
  show ?thesis by blast
qed

section \<open>The pattern of a result line\<close>

lemma matches_keeps_group:
  "(t, g') \<in> set (matches n r (s, g)) \<Longrightarrow> name \<notin> group_names r \<Longrightarrow> g' name = g name"
proof (induction r arbitrary: s g t g')
  case (Cat a b)
  then show ?case by fastforce
next
  case (Cls c)
  then show ?case by (auto split: list.splits if_splits)
qed (auto split: if_splits)

lemma matches_Cls_Only:
  "(t, g') \<in> set (matches n (Cls (Only c)) (s, g)) \<longleftrightarrow> s = c # t \<and> g' = g"
  by (auto split: list.splits)

lemma takeWhile_stops:
  assumes "i \<le> length (takeWhile P s)" "drop i s = x # t" "\<not> P x"
  shows "take i s = takeWhile P s"
proof -
  have "i = length (takeWhile P s)"
  proof (rule ccontr)
    assume "i \<noteq> length (takeWhile P s)"
    with assms(1) have lt: "i < length (takeWhile P s)" by simp
    then have "P (takeWhile P s ! i)" by (meson nth_mem set_takeWhileD)
    moreover from lt have "takeWhile P s ! i = s ! i" by (rule takeWhile_nth)
    moreover from assms(2) have "s ! i = x"
      by (metis Cons_nth_drop_Suc drop_all list.inject list.simps(3) not_le)
    ultimately show False using assms(3) by simp
  qed
  then show ?thesis by (metis takeWhile_eq_take)
qed

lemma matches_Cat:
  "(t, g') \<in> set (matches n (Cat a b) st) \<longleftrightarrow>
     (\<exists>s1 g1. (s1, g1) \<in> set (matches n a st) \<and> (t, g') \<in> set (matches n b (s1, g1)))"
  by auto

lemma matches_Group_Rep_eq:
  "matches n (Group name (Rep c 0)) (s, g)
     = map (\<lambda>i. (drop i s, g(name \<mapsto> take i s))) (rev [0 ..< Suc (length (takeWhile (cls_ok c) s))])"
proof -
  have k: "length (takeWhile (cls_ok c) s) \<le> length s" by (rule length_takeWhile_le)
  have "i \<le> length (takeWhile (cls_ok c) s) \<Longrightarrow> length s - length (drop i s) = i" for i
    using k by simp
  then show ?thesis
    by (simp del: upt_Suc length_drop add: comp_def less_Suc_eq_le rev_map [symmetric])
qed

lemma matches_Group_Rep:
  assumes "(t, g') \<in> set (matches n (Group name (Rep c 0)) (s, g))"
  shows "\<exists>i \<le> length (takeWhile (cls_ok c) s). t = drop i s \<and> g' = g(name \<mapsto> take i s)"
proof -
  from assms have "(t, g') \<in> (\<lambda>i. (drop i s, g(name \<mapsto> take i s))) ` {0 ..< Suc (length (takeWhile (cls_ok c) s))}"
    unfolding matches_Group_Rep_eq by (simp del: upt_Suc)
  then obtain i where "i \<in> {0 ..< Suc (length (takeWhile (cls_ok c) s))}"
    "(t, g') = (drop i s, g(name \<mapsto> take i s))" by (rule imageE)
  then show ?thesis by (intro exI [of _ i]) simp
qed

lemma cls_ok_Except: "cls_ok (Except c) = (\<lambda>x. x \<noteq> c)"
  by (rule ext) simp

lemma matches_Bol: "(t, g') \<in> set (matches n Bol (s, g)) \<Longrightarrow> t = s \<and> g' = g"
  by (auto split: if_splits)

lemma matches_colon_space:
  "(t, g') \<in> set (matches n (lit (ascii '': '')) (s, g)) \<Longrightarrow> s = 58 # 32 # t \<and> g' = g"
  by (auto split: list.splits if_splits)

lemma group_names_lit [simp]: "group_names (lit s) = {}"
  by (induction s rule: lit.induct) simp_all

lemma result_regex_path:
  assumes "(t, g') \<in> set (matches n RESULT_REGEX (s, g))"
  shows "g' ''path'' = Some (takeWhile (\<lambda>c. c \<noteq> 58) s)"
proof -
  let ?rest = "Cat (Opt (Cat (Group ''reason'' (Rep Dot 1)) (lit (ascii '' ''))))
            (Cat (Group ''status''
                    (Alt (lit (ascii ''FOUND'')) (Alt (lit (ascii ''OK'')) (lit (ascii ''ERROR'')))))
              Eol)"
  from assms obtain s1 g1 where 1: "(s1, g1) \<in> set (matches n Bol (s, g))"
    and a: "(t, g') \<in> set (matches n (Cat (Group ''path'' (Rep (Except 58) 0))
        (Cat (lit (ascii '': '')) ?rest)) (s1, g1))"
    unfolding RESULT_REGEX_def matches_Cat by blast
  from matches_Bol [OF 1] have s1: "s1 = s" "g1 = g" by simp_all
  from a obtain s2 g2 where 2: "(s2, g2) \<in> set (matches n (Group ''path'' (Rep (Except 58) 0)) (s, g))"
    and b: "(t, g') \<in> set (matches n (Cat (lit (ascii '': '')) ?rest) (s2, g2))"
    unfolding matches_Cat s1 by blast
  from matches_Group_Rep [OF 2] have "\<exists>i \<le> length (takeWhile (\<lambda>c. c \<noteq> 58) s).
      s2 = drop i s \<and> g2 = g(''path'' \<mapsto> take i s)" by (simp only: cls_ok_Except)
  then obtain i where i: "i \<le> length (takeWhile (\<lambda>c. c \<noteq> 58) s)"
    and s2: "s2 = drop i s" "g2 = g(''path'' \<mapsto> take i s)" by blast
  from b obtain s3 g3 where 3: "(s3, g3) \<in> set (matches n (lit (ascii '': '')) (s2, g2))"
    and r: "(t, g') \<in> set (matches n ?rest (s3, g3))"
    unfolding matches_Cat by blast
  from matches_colon_space [OF 3] s2 have d: "drop i s = 58 # 32 # s3" and g3: "g3 = g(''path'' \<mapsto> take i s)"
    by simp_all
  have "''path'' \<notin> group_names ?rest" by simp
  from matches_keeps_group [OF r this] g3
  have "g' ''path'' = Some (take i s)" by simp
  with takeWhile_stops [OF i d] show ?thesis by simp
qed


lemma re_match_Some:
  "re_match r s = Some g \<Longrightarrow> \<exists>t. (t, g) \<in> set (matches (length s) r (s, Map.empty))"
  by (auto simp: re_match_def split: list.splits)

text \<open>
  C6: the path of a parsed line is the text before the first colon of the line (or the marker
  \<open>stream\<close>), so it contains no colon: whatever the line, \<open>ScanResult._from_str\<close> never
  returns a result whose path is a text with a colon in it. A line whose path component
  contains a colon is split at the first colon or fails to match.
\<close>

theorem scan_path_before_first_colon:
  assumes "ScanResult_from_str line cmd stream = Inr r"
  shows "path r = (if stream then Stream else Path (takeWhile (\<lambda>c. c \<noteq> 58) line))
         \<and> (\<forall>p. 58 \<in> set p \<longrightarrow> path r \<noteq> Path p)"
proof -
  from assms obtain g p st where m: "re_match RESULT_REGEX line = Some g"
    and p: "g ''path'' = Some p" and r: "r = \<lparr>path = (if stream then Stream else Path p),
      reason = g ''reason'', status = st\<rparr>"
    by (auto simp: ScanResult_from_str_def split: option.splits)
  from re_match_Some [OF m] result_regex_path p
  have "p = takeWhile (\<lambda>c. c \<noteq> 58) line" by fastforce
  moreover have "58 \<notin> set (takeWhile (\<lambda>c. c \<noteq> 58) line)"
    by (auto dest: set_takeWhileD)
  ultimately show ?thesis using r by auto
qed

theorem scan_path_before_first_colon_witness:
  "ScanResult_from_str (ascii ''/tmp/a: b: Eicar FOUND'') (ascii ''SCAN'') False
     = Inr \<lparr>path = Path (ascii ''/tmp/a''), reason = Some (ascii ''b: Eicar''),
            status = ascii ''FOUND''\<rparr>
   \<and> Path (ascii ''/tmp/a'') \<noteq> Path (ascii ''/tmp/a: b'')"
proof -
  have h: "ScanResult_from_str (ascii ''/tmp/a: b: Eicar FOUND'') (ascii ''SCAN'') False
     = Inr \<lparr>path = Path (ascii ''/tmp/a''), reason = Some (ascii ''b: Eicar''),
            status = ascii ''FOUND''\<rparr>"
    by (simp add: ScanResult_from_str_def re_match_def RESULT_REGEX_def)
  from scan_path_before_first_colon [OF h] h show ?thesis by simp
qed

text \<open>
  C10 does not hold of the code: the optional \<open>reason\<close> group of \<open>RESULT_REGEX\<close> is allowed
  before every status, also before \<open>OK\<close>. The reply line for a clean file named
  \<open>/tmp/foo: bar\<close> parses to a result with status \<open>OK\<close> and the reason \<open>bar:\<close>, against the
  documentation of the field \<open>reason\<close> (for \<open>OK\<close>, the reason is always \<open>None\<close>).
\<close>

theorem clean_result_with_reason:
  "ScanResult_from_str (ascii ''/tmp/foo: bar: OK'') (ascii ''SCAN'') False
     = Inr \<lparr>path = Path (ascii ''/tmp/foo''), reason = Some (ascii ''bar:''),
            status = ascii ''OK''\<rparr>"
  by (simp add: ScanResult_from_str_def re_match_def RESULT_REGEX_def)

section \<open>Lines that do not match\<close>

lemma ascii_bytes_simps [simp]:
  "ascii_bytes [] = []" "ascii_bytes (c # cs) = of_char c # ascii_bytes cs"
  by (simp_all add: ascii_bytes_def)

lemma scan_lines_stops:
  assumes "\<forall>x \<in> set good. \<exists>r. ScanResult_from_str x cmd False = Inr r"
    and "ScanResult_from_str l cmd False = Inl e"
  shows "scan_lines cmd (good @ l # rest) = Inl e"
  using assms by (induction good) auto

text \<open>
  C5, as stated, fails in the kind of the error: the code has no error class for a malformed
  reply. A line that does not match raises \<open>ResponseError\<close>, the class of the errors that the
  daemon reports, and the failure of a scan on the reply \<open>garbage\<close> is the very value that
  \<open>_command\<close> raises when the daemon answers \<open>Unable to match string: garbage ERROR\<close>.
\<close>

theorem any_scan_error_kind_counterexample:
  "any_scan default_clamd (Inr (fresh_sock (ascii_bytes ''garbage''))) (\<lambda>p. p)
      (ascii ''SCAN'') (ascii ''/tmp'') False
     = Inl (ResponseError (ascii ''SCAN'') (ascii ''Unable to match string: garbage''))
   \<and> command default_clamd
        (Inr (fresh_sock (ascii_bytes ''Unable to match string: garbage ERROR'')))
        (ascii ''SCAN'') [ascii ''/tmp''] True True
     = Inl (ResponseError (ascii ''SCAN'') (ascii ''Unable to match string: garbage''))"
  by (simp add: any_scan_def command_def acquire_socket_def send_def default_clamd_def
      fresh_sock_def line_terminator_str_def endline_def sendall_def utf8_char_def recv_def
      strip_chars_def UNKNOWN_COMMAND_def COMMAND_READ_TIMED_OUT_def rsplit1_def strip_def
      isspace_def ScanResult_from_str_def re_match_def RESULT_REGEX_def)

text \<open>
  C5, amended: when the reply of a scan is parsed and a line fails to match the pattern while
  the lines before it parse, the whole call fails with \<open>ResponseError\<close> carrying the command
  and the message \<open>Unable to match string: \<close> followed by that line; no list of results is
  returned, whatever the lines after it are.
\<close>

theorem any_scan_malformed_line:
  assumes "command self connect cmd [absolute p] True False = Inr result"
    and "split (endline self) result = good @ l # rest"
    and "\<forall>x \<in> set good. \<exists>r. ScanResult_from_str x cmd False = Inr r"
    and "re_match RESULT_REGEX l = None"
  shows "any_scan self connect absolute cmd p False
           = Inl (ResponseError cmd (ascii ''Unable to match string: '' @ l))"
proof -
  from assms(4) have "ScanResult_from_str l cmd False
      = Inl (ResponseError cmd (ascii ''Unable to match string: '' @ l))"
    by (simp add: ScanResult_from_str_def)
  from scan_lines_stops [OF assms(3) this, of rest] assms(1,2) show ?thesis
    by (simp add: any_scan_def)
qed

theorem any_scan_malformed_line_witness:
  "any_scan default_clamd
      (Inr (fresh_sock (ascii_bytes (''/tmp/a: OK'' @ [CHR 0x0A] @ ''garbage'' @ [CHR 0x0A] @ ''/tmp/c: OK''))))
      (\<lambda>p. p) (ascii ''SCAN'') (ascii ''/tmp'') False
     = Inl (ResponseError (ascii ''SCAN'') (ascii ''Unable to match string: garbage''))"
proof -
  let ?s = "fresh_sock (ascii_bytes (''/tmp/a: OK'' @ [CHR 0x0A] @ ''garbage'' @ [CHR 0x0A] @ ''/tmp/c: OK''))"
  let ?reply = "ascii (''/tmp/a: OK'' @ [CHR 0x0A] @ ''garbage'' @ [CHR 0x0A] @ ''/tmp/c: OK'')"
  have 1: "command default_clamd (Inr ?s) (ascii ''SCAN'') [(\<lambda>p. p) (ascii ''/tmp'')] True False
             = Inr ?reply"
    by (simp add: command_def acquire_socket_def send_def default_clamd_def
      fresh_sock_def line_terminator_str_def endline_def sendall_def utf8_char_def recv_def
      strip_chars_def UNKNOWN_COMMAND_def COMMAND_READ_TIMED_OUT_def)
  have 2: "split (endline default_clamd) ?reply
             = [ascii ''/tmp/a: OK''] @ ascii ''garbage'' # [ascii ''/tmp/c: OK'']"
    by (simp add: default_clamd_def endline_def)
  have 3: "\<forall>x \<in> set [ascii ''/tmp/a: OK'']. \<exists>r. ScanResult_from_str x (ascii ''SCAN'') False = Inr r"
    by (simp add: ScanResult_from_str_def re_match_def RESULT_REGEX_def)
  have 4: "re_match RESULT_REGEX (ascii ''garbage'') = None"
    by (simp add: re_match_def RESULT_REGEX_def)
  from any_scan_malformed_line [where absolute = "\<lambda>p. p" and p = "ascii ''/tmp''", OF 1 2 3 4]
  show ?thesis by simp
qed

section \<open>The reply to a streamed upload\<close>

lemma contains_iff: "sub \<noteq> [] \<Longrightarrow> contains sub s \<longleftrightarrow> (\<exists>u v. s = u @ sub @ v)"
proof (induction s)
  case Nil
  then show ?case by simp
next
  case (Cons x xs)
  show ?case
  proof
    assume "contains sub (x # xs)"
    then consider "take (length sub) (x # xs) = sub" | "contains sub xs" by auto
    then show "\<exists>u v. x # xs = u @ sub @ v"
    proof cases
      case 1
      then have "x # xs = [] @ sub @ drop (length sub) (x # xs)"
        by (metis append_Nil append_take_drop_id)
      then show ?thesis by blast
    next
      case 2
      with Cons obtain u v where "xs = u @ sub @ v" by auto
      then have "x # xs = (x # u) @ sub @ v" by simp
      then show ?thesis by blast
    qed
  next
    assume "\<exists>u v. x # xs = u @ sub @ v"
    then obtain u v where e: "x # xs = u @ sub @ v" by blast
    show "contains sub (x # xs)"
    proof (cases u)
      case Nil
      with e have "take (length sub) (x # xs) = sub" by simp
      then show ?thesis by simp
    next
      case (Cons y ys)
      with e have "xs = ys @ sub @ v" by simp
      with Cons.IH Cons.prems show ?thesis by auto
    qed
  qed
qed

lemma rsplit_last_absent: "\<forall>a b. s \<noteq> a @ sep @ b \<Longrightarrow> rsplit_last sep s = None"
  using rsplit_last_sound [of sep s] by (cases "rsplit_last sep s") auto

lemma instream_after_recv:
  assumes "acquire_socket self connect = Inr s" "instream_upload rd self s src m = Some (Inr s')"
    "recv self s' True = Inr result"
  shows "instream rd self connect src raw m =
     Some
      (if contains (ascii ''INSTREAM size limit exceeded'') result then
         Inl (BufferTooLongError
                (strip (case rsplit_last (ascii ''ERROR'') result of
                          Some (a, b) \<Rightarrow> a | None \<Rightarrow> result)))
       else if raw then Inr (Raw result)
       else (case ScanResult_from_str result (ascii ''INSTREAM'') True of
               Inl e \<Rightarrow> Inl e
             | Inr r \<Rightarrow> Inr (Parsed r)))"
  using assms by (simp add: instream_def rsplit1_def split: option.splits)

lemmas run_simps =
  acquire_socket_def send_def default_clamd_def fresh_sock_def line_terminator_str_def
  endline_def sendall_def utf8_char_def recv_def strip_chars_def instream_upload_def
  chunk_size_def BytesIO_read_def send_chunks.simps pack_L_def

text \<open>
  C9: when the reply to a streamed upload contains \<open>INSTREAM size limit exceeded\<close>, the call
  fails with \<open>BufferTooLongError\<close>, whatever \<open>raw\<close> is, carrying the text before the last
  \<open>ERROR\<close> of the reply with the white space trimmed from both ends (the whole reply, trimmed,
  when it has no \<open>ERROR\<close>). In particular the reply \<open>INSTREAM size limit exceeded ERROR\<close>
  gives the message \<open>INSTREAM size limit exceeded\<close>.
\<close>

theorem instream_size_limit:
  assumes "acquire_socket self connect = Inr s" "instream_upload rd self s src m = Some (Inr s')"
    "recv self s' True = Inr result"
    "result = u @ ascii ''INSTREAM size limit exceeded'' @ v"
  shows "(result = pre @ ascii ''ERROR'' @ post
          \<and> (\<forall>pre' post'. result = pre' @ ascii ''ERROR'' @ post' \<longrightarrow> length pre' \<le> length pre)
          \<longrightarrow> instream rd self connect src raw m = Some (Inl (BufferTooLongError (strip pre))))
       \<and> ((\<forall>a b. result \<noteq> a @ ascii ''ERROR'' @ b)
          \<longrightarrow> instream rd self connect src raw m = Some (Inl (BufferTooLongError (strip result))))
       \<and> (result = ascii ''INSTREAM size limit exceeded ERROR''
          \<longrightarrow> instream rd self connect src raw m
                = Some (Inl (BufferTooLongError (ascii ''INSTREAM size limit exceeded''))))"
proof -
  from assms(4) have c: "contains (ascii ''INSTREAM size limit exceeded'') result"
    by (subst contains_iff) auto
  note i = instream_after_recv [OF assms(1-3), of raw]
  show ?thesis
  proof (intro conjI impI)
    assume "result = pre @ ascii ''ERROR'' @ post
          \<and> (\<forall>pre' post'. result = pre' @ ascii ''ERROR'' @ post' \<longrightarrow> length pre' \<le> length pre)"
    then have "rsplit_last (ascii ''ERROR'') result = Some (pre, post)"
      by (intro rsplit_last_eq) simp_all
    with c show "instream rd self connect src raw m = Some (Inl (BufferTooLongError (strip pre)))"
      unfolding i by simp
  next
    assume "\<forall>a b. result \<noteq> a @ ascii ''ERROR'' @ b"
    then have "rsplit_last (ascii ''ERROR'') result = None" by (rule rsplit_last_absent)
    with c show "instream rd self connect src raw m = Some (Inl (BufferTooLongError (strip result)))"
      unfolding i by simp
  next
    assume "result = ascii ''INSTREAM size limit exceeded ERROR''"
    then show "instream rd self connect src raw m
                = Some (Inl (BufferTooLongError (ascii ''INSTREAM size limit exceeded'')))"
      unfolding i by (simp add: strip_def isspace_def)
  qed
qed

theorem instream_size_limit_witness:
  "instream BytesIO_read default_clamd
     (Inr (fresh_sock (ascii_bytes ''INSTREAM size limit exceeded ERROR''))) [] False None
   = Some (Inl (BufferTooLongError (ascii ''INSTREAM size limit exceeded'')))
   \<and> instream BytesIO_read default_clamd
       (Inr (fresh_sock (ascii_bytes ''INSTREAM size limit exceeded ERROR''))) [] True None
   = Some (Inl (BufferTooLongError (ascii ''INSTREAM size limit exceeded'')))"
proof -
  let ?s = "fresh_sock (ascii_bytes ''INSTREAM size limit exceeded ERROR'')"
  let ?s' = "?s\<lparr>sent := [[110, 73, 78, 83, 84, 82, 69, 65, 77, 10], [0, 0, 0, 0]]\<rparr>"
  have 1: "acquire_socket default_clamd (Inr ?s) = Inr ?s"
    by (simp add: acquire_socket_def)
  have 2: "instream_upload BytesIO_read default_clamd ?s [] None = Some (Inr ?s')"
    by (simp add: run_simps)
  have 3: "recv default_clamd ?s' True = Inr (ascii ''INSTREAM size limit exceeded ERROR'')"
    by (simp add: run_simps)
  have 4: "ascii ''INSTREAM size limit exceeded ERROR''
             = [] @ ascii ''INSTREAM size limit exceeded'' @ ascii '' ERROR''"
    by simp
  from instream_size_limit [OF 1 2 3 4, of _ _ False] instream_size_limit [OF 1 2 3 4, of _ _ True]
  show ?thesis by blast
qed

section \<open>The sentinel replies\<close>

text \<open>
  Every command that goes through \<open>_command\<close> fails with \<open>UnknownCommand\<close> or
  \<open>CommandReadTimedOut\<close>, carrying the verb, when the reply is the sentinel.
\<close>

lemma command_sentinels:
  assumes "acquire_socket self connect = Inr s" "send self s cmd args = Inr s'"
  shows "recv self s' multiline = Inr UNKNOWN_COMMAND
           \<Longrightarrow> command self connect cmd args multiline raise_on_error = Inl (UnknownCommand cmd)"
    and "recv self s' multiline = Inr COMMAND_READ_TIMED_OUT
           \<Longrightarrow> command self connect cmd args multiline raise_on_error
               = Inl (CommandReadTimedOut cmd)"
  using assms
  by (simp_all add: command_def UNKNOWN_COMMAND_def COMMAND_READ_TIMED_OUT_def)

text \<open>
  C3 does not hold of \<open>instream\<close>, which sends and receives by itself and never compares
  the reply with the sentinels: on the reply \<open>UNKNOWN COMMAND\<close> or \<open>COMMAND READ TIMED OUT\<close>
  it returns the text when \<open>raw\<close> is set and fails with \<open>ResponseError\<close> (the line does not
  match) otherwise.
\<close>

theorem instream_skips_sentinels:
  "instream BytesIO_read default_clamd (Inr (fresh_sock (ascii_bytes ''UNKNOWN COMMAND'')))
      [] False None
     = Some (Inl (ResponseError (ascii ''INSTREAM'')
                   (ascii ''Unable to match string: UNKNOWN COMMAND'')))
   \<and> instream BytesIO_read default_clamd (Inr (fresh_sock (ascii_bytes ''UNKNOWN COMMAND'')))
      [] True None
     = Some (Inr (Raw (ascii ''UNKNOWN COMMAND'')))
   \<and> instream BytesIO_read default_clamd
      (Inr (fresh_sock (ascii_bytes ''COMMAND READ TIMED OUT''))) [] False None
     = Some (Inl (ResponseError (ascii ''INSTREAM'')
                   (ascii ''Unable to match string: COMMAND READ TIMED OUT'')))
   \<and> instream BytesIO_read default_clamd
      (Inr (fresh_sock (ascii_bytes ''COMMAND READ TIMED OUT''))) [] True None
     = Some (Inr (Raw (ascii ''COMMAND READ TIMED OUT'')))"
  by (simp add: instream_def run_simps ScanResult_from_str_def re_match_def RESULT_REGEX_def)

section \<open>What a streamed upload writes\<close>




lemma concat_chunks: "0 < k \<Longrightarrow> concat (chunks k xs) = xs"
  by (induction k xs rule: chunks.induct) (subst chunks.simps, simp)

lemma chunks_nonempty: "c \<in> set (chunks k xs) \<Longrightarrow> c \<noteq> [] \<and> length c \<le> k"
proof (induction k xs rule: chunks.induct)
  case (1 k xs)
  show ?case
  proof (cases "xs = [] \<or> k = 0")
    case True
    with "1.prems" show ?thesis by (simp add: chunks.simps)
  next
    case False
    with "1.prems" have "c = take k xs \<or> c \<in> set (chunks k (drop k xs))"
      by (subst (asm) chunks.simps) simp
    with False "1.IH" show ?thesis by auto
  qed
qed

lemma chunks_full: "c \<in> set (butlast (chunks k xs)) \<Longrightarrow> length c = k"
proof (induction k xs rule: chunks.induct)
  case (1 k xs)
  show ?case
  proof (cases "xs = [] \<or> k = 0")
    case True
    with "1.prems" show ?thesis by (simp add: chunks.simps)
  next
    case False
    show ?thesis
    proof (cases "chunks k (drop k xs) = []")
      case True
      with False "1.prems" show ?thesis by (subst (asm) chunks.simps) simp
    next
      case ne: False
      then have "drop k xs \<noteq> []" by (auto simp: chunks.simps)
      then have l: "length (take k xs) = k" by simp
      from False ne "1.prems" have "c = take k xs \<or> c \<in> set (butlast (chunks k (drop k xs)))"
        by (subst (asm) chunks.simps) simp
      with l False "1.IH" show ?thesis by auto
    qed
  qed
qed


lemma BytesIO_yields:
  assumes "0 < n" "n < 2 ^ 63"
  shows "yields BytesIO_read n buff (chunks (nat n) buff)"
proof (induction "nat n" buff rule: chunks.induct)
  case (1 xs)
  from assms have r: "BytesIO_read n xs = (Inr (take (nat n) xs), drop (nat n) xs)"
    by (simp add: BytesIO_read_def)
  show ?case
  proof (cases "xs = []")
    case True
    with assms show ?thesis by (simp add: chunks.simps BytesIO_read_def)
  next
    case False
    with assms(1) have c: "\<not> (xs = [] \<or> nat n = 0)" by simp
    from "1.hyps" [OF c] have "yields BytesIO_read n (drop (nat n) xs) (chunks (nat n) (drop (nat n) xs))" .
    with c r show ?thesis by (subst chunks.simps) simp
  qed
qed


text \<open>
  An upload of five octets from an \<open>io.BytesIO\<close> in chunks of two, an upload from a source
  that gives one octet at a time, and an upload with a chunk size that \<open>io.BytesIO.read\<close>
  refuses.
\<close>

lemma instream_upload_example:
  "instream_upload BytesIO_read default_clamd (fresh_sock []) [1, 2, 3, 4, 5] (Some 2)
     = Some (Inr ((fresh_sock [])\<lparr>sent := [ascii_bytes ''nINSTREAM'' @ [10], [0, 0, 0, 2, 1, 2],
              [0, 0, 0, 2, 3, 4], [0, 0, 0, 1, 5], [0, 0, 0, 0]]\<rparr>))"
  by (simp add: run_simps)

lemma instream_upload_short_reads:
  "instream_upload one_at_a_time default_clamd (fresh_sock []) [7, 8] None
     = Some (Inr ((fresh_sock [])\<lparr>sent := [ascii_bytes ''nINSTREAM'' @ [10], [0, 0, 0, 1, 7],
              [0, 0, 0, 1, 8], [0, 0, 0, 0]]\<rparr>))"
  by (simp add: run_simps one_at_a_time_def)

lemma instream_upload_overflow:
  "instream_upload BytesIO_read default_clamd (fresh_sock []) [1, 2, 3] (Some (2 ^ 64))
     = Some (Inl OverflowError)"
  by (simp add: run_simps)




end
